theory Spec2Isabelle
  imports Main "HOL-Library.Sublist"
begin

section \<open>The lending table\<close>

text \<open>
  The dashboard script of \<^verbatim>\<open>src/lib.py\<close> works on one pandas table. A cell of the
  loaded table is a missing value (\<open>NaN\<close>, or \<open>NaT\<close> in a date column), a text, a number,
  or a time stamp: the calendar day as its proleptic ordinal and the time within the day.
  After \<^verbatim>\<open>load_data\<close> the cells of \<^verbatim>\<open>issue_date\<close>, \<^verbatim>\<open>due_date\<close> and \<^verbatim>\<open>return_date\<close>
  are time stamps or missing, which is what \<^verbatim>\<open>pd.to_datetime\<close> leaves behind.
\<close>

datatype cell = NA | Text string | Num int | Timestamp int nat

text \<open>
  A table has its column labels and its records, each record holding one cell per column,
  in the order of the labels.
\<close>

record frame =
  columns :: "string list"
  rows :: "cell list list"

datatype error = KeyError string | AttributeError string

text \<open>
  The values the two kinds of sidebar widget hand back: the pair of the date slider, and
  the list chosen in the multi-select of each categorical column. The model starts from
  these values; how the widgets are drawn, with the bounds and the options that lines 34
  to 41 and 58 to 63 pass to them, is the library's part.
\<close>

record sidebar =
  date_range :: "int \<times> int"
  selected :: "string \<Rightarrow> cell list"

subsection \<open>The pandas operations the script calls\<close>

text \<open>\<^verbatim>\<open>df.columns.get_loc\<close>: the position of a label, first occurrence.\<close>

fun get_loc :: "string list \<Rightarrow> string \<Rightarrow> nat option" where
  "get_loc [] c = None"
| "get_loc (k # ks) c = (if k = c then Some 0 else map_option Suc (get_loc ks c))"

text \<open>The cell of a record at a position. A record that is shorter than the header reads
  as missing there, which is how \<^verbatim>\<open>read_csv\<close> pads it.\<close>

definition cell_at :: "cell list \<Rightarrow> nat \<Rightarrow> cell" where
  "cell_at r i = (if i < length r then r ! i else NA)"

text \<open>\<^verbatim>\<open>df[col]\<close>: the column as a series, or \<^verbatim>\<open>KeyError\<close> when the label is absent.\<close>

definition getitem :: "frame \<Rightarrow> string \<Rightarrow> error + cell list" where
  "getitem f c =
     (case get_loc (columns f) c of
        None \<Rightarrow> Inl (KeyError c)
      | Some i \<Rightarrow> Inr (map (\<lambda>r. cell_at r i) (rows f)))"

text \<open>\<^verbatim>\<open>df[mask]\<close>: the records at which the boolean series holds, as a new table.\<close>

definition boolean_index :: "frame \<Rightarrow> bool list \<Rightarrow> frame" where
  "boolean_index f bs = f\<lparr>rows := map fst (filter snd (zip (rows f) bs))\<rparr>"

text \<open>\<^verbatim>\<open>.dt.date\<close>: the calendar day of a time stamp; a missing one stays missing.\<close>

fun dt_date :: "cell \<Rightarrow> int option" where
  "dt_date (Timestamp d t) = Some d"
| "dt_date NA = None"
| "dt_date (Text s) = None"
| "dt_date (Num n) = None"

text \<open>The comparisons of a series of days with one day. A missing day compares false.\<close>

definition series_ge :: "int option list \<Rightarrow> int \<Rightarrow> bool list" where
  "series_ge s d = map (\<lambda>v. case v of None \<Rightarrow> False | Some x \<Rightarrow> d \<le> x) s"

definition series_le :: "int option list \<Rightarrow> int \<Rightarrow> bool list" where
  "series_le s d = map (\<lambda>v. case v of None \<Rightarrow> False | Some x \<Rightarrow> x \<le> d) s"

text \<open>\<^verbatim>\<open>a & b\<close> on two boolean series.\<close>

definition series_and :: "bool list \<Rightarrow> bool list \<Rightarrow> bool list" where
  "series_and a b = map (\<lambda>(x, y). x \<and> y) (zip a b)"

text \<open>\<^verbatim>\<open>series.isin(values)\<close>; a missing cell is found among values that hold a missing one.\<close>

definition isin :: "cell list \<Rightarrow> cell list \<Rightarrow> bool list" where
  "isin s vals = map (\<lambda>v. v \<in> set vals) s"

text \<open>\<^verbatim>\<open>series.unique()\<close>: the distinct cells in the order of their first occurrence.\<close>

fun unique :: "cell list \<Rightarrow> cell list" where
  "unique [] = []"
| "unique (v # vs) = v # filter (\<lambda>w. w \<noteq> v) (unique vs)"

section \<open>The filter engine\<close>

text \<open>
  Lines 33 to 45: the date filter runs only when the loaded table has the column
  \<^verbatim>\<open>issue_date\<close>. The first argument is the loaded table \<^verbatim>\<open>df\<close>, the last the view
  \<^verbatim>\<open>filtered_df\<close> built so far.
\<close>

definition date_filter :: "frame \<Rightarrow> int \<times> int \<Rightarrow> frame \<Rightarrow> error + frame" where
  "date_filter df rng view =
     (if ''issue_date'' \<in> set (columns df) then
        (case getitem view ''issue_date'' of
           Inl e \<Rightarrow> Inl e
         | Inr s \<Rightarrow>
             Inr (boolean_index view
                   (series_and (series_ge (map dt_date s) (fst rng))
                               (series_le (map dt_date s) (snd rng)))))
      else Inr view)"

definition filter_options :: "(string \<times> string) list" where
  "filter_options =
     [(''genre'', ''Book Genres''),
      (''borrower_type'', ''Borrower Types''),
      (''student_batch'', ''Student Batches''),
      (''student_major'', ''Student Majors''),
      (''borrower_age_group'', ''Age Groups'')]"

text \<open>
  Lines 56 to 65, the loop over \<^verbatim>\<open>filter_options.items()\<close>. The options of the widget
  are read from the loaded table; the chosen list filters the view only when it is not
  empty.
\<close>

fun filter_loop ::
  "frame \<Rightarrow> (string \<Rightarrow> cell list) \<Rightarrow> (string \<times> string) list \<Rightarrow> frame \<Rightarrow> error + frame" where
  "filter_loop df sel [] view = Inr view"
| "filter_loop df sel ((col, label) # rest) view =
     (if col \<in> set (columns df) then
        (case getitem df col of
           Inl e \<Rightarrow> Inl e
         | Inr s \<Rightarrow>
             (let options = unique s; chosen = sel col in
              if chosen \<noteq> [] then
                (case getitem view col of
                   Inl e \<Rightarrow> Inl e
                 | Inr t \<Rightarrow> filter_loop df sel rest (boolean_index view (isin t chosen)))
              else filter_loop df sel rest view))
      else filter_loop df sel rest view)"

text \<open>Lines 30 to 65: the view starts as a copy of the loaded table.\<close>

definition filtered_df :: "frame \<Rightarrow> sidebar \<Rightarrow> error + frame" where
  "filtered_df df w =
     (case date_filter df (date_range w) df of
        Inl e \<Rightarrow> Inl e
      | Inr view \<Rightarrow> filter_loop df (selected w) filter_options view)"

section \<open>Key metrics\<close>

text \<open>\<^verbatim>\<open>series.nunique()\<close> counts the distinct cells that are not missing.\<close>

definition nunique :: "cell list \<Rightarrow> nat" where
  "nunique s = length (unique (filter (\<lambda>v. v \<noteq> NA) s))"

definition isna :: "cell list \<Rightarrow> bool list" where
  "isna s = map (\<lambda>v. v = NA) s"

text \<open>\<^verbatim>\<open>.sum()\<close> of a boolean series: how many entries hold.\<close>

definition series_sum :: "bool list \<Rightarrow> nat" where
  "series_sum bs = length (filter (\<lambda>b. b) bs)"

text \<open>
  \<^verbatim>\<open>re.search\<close> for a pattern that is an alternation of literals, as \<^verbatim>\<open>'Late|Overdue'\<close>
  is: some alternative starts at some position of the text. Letter case is not folded.
\<close>

fun re_search :: "string list \<Rightarrow> string \<Rightarrow> bool" where
  "re_search alts [] = list_ex (\<lambda>a. a = []) alts"
| "re_search alts (c # cs) = (list_ex (\<lambda>a. prefix a (c # cs)) alts \<or> re_search alts cs)"

text \<open>\<^verbatim>\<open>.str.contains(pat, na=...)\<close>: a cell that is not a text takes the value of \<^verbatim>\<open>na\<close>.\<close>

definition str_contains :: "cell list \<Rightarrow> string list \<Rightarrow> bool \<Rightarrow> bool list" where
  "str_contains s alts na = map (\<lambda>v. case v of Text t \<Rightarrow> re_search alts t | _ \<Rightarrow> na) s"

text \<open>
  The dtype test of the \<^verbatim>\<open>.str\<close> accessor. A view keeps the dtypes of the loaded table,
  so the test is decided by the column as it was loaded: \<^verbatim>\<open>read_csv\<close> gives a column the
  dtype \<^verbatim>\<open>object\<close> when the table has no record or some cell of the column holds a text,
  and a numeric dtype when the column holds blanks and numbers only. On a column that is not
  of dtype \<^verbatim>\<open>object\<close> the accessor raises \<^verbatim>\<open>AttributeError\<close>.
\<close>

fun is_text :: "cell \<Rightarrow> bool" where
  "is_text (Text s) = True"
| "is_text NA = False"
| "is_text (Num n) = False"
| "is_text (Timestamp d t) = False"

definition object_dtype :: "frame \<Rightarrow> string \<Rightarrow> bool" where
  "object_dtype df c =
     (case getitem df c of Inl e \<Rightarrow> False | Inr s \<Rightarrow> s = [] \<or> list_ex is_text s)"

definition str_accessor :: "frame \<Rightarrow> string \<Rightarrow> cell list \<Rightarrow> error + cell list" where
  "str_accessor df c s =
     (if object_dtype df c then Inr s
      else Inl (AttributeError ''Can only use .str accessor with string values''))"

text \<open>
  Lines 70 to 75, for the loaded table \<^verbatim>\<open>df\<close> and the view \<^verbatim>\<open>filtered_df\<close>. The three
  columns are read without a test of their presence, in the order of the list, and the
  status column goes through \<^verbatim>\<open>.str\<close>.
\<close>

definition metrics :: "frame \<Rightarrow> frame \<Rightarrow> error + (string \<times> nat) list" where
  "metrics df view =
     (case getitem view ''borrower_id'' of
        Inl e \<Rightarrow> Inl e
      | Inr b \<Rightarrow>
     (case getitem view ''return_date'' of
        Inl e \<Rightarrow> Inl e
      | Inr r \<Rightarrow>
     (case getitem view ''overdue_status'' of
        Inl e \<Rightarrow> Inl e
      | Inr s \<Rightarrow>
     (case str_accessor df ''overdue_status'' s of
        Inl e \<Rightarrow> Inl e
      | Inr t \<Rightarrow>
          Inr [(''Total Books Issued'', length (rows view)),
               (''Unique Borrowers'', nunique b),
               (''Books Not Returned'', series_sum (isna r)),
               (''Late Returns'', series_sum (str_contains t [''Late'', ''Overdue''] False))]))))"

section \<open>Charts\<close>

text \<open>
  A chart is recorded by its kind and title; the plotted numbers are left out. Lines 107
  to 132: nothing is drawn for an empty view, and each chart asks for its columns first.
  The list is that of the charts the script sets out to draw: what the grouping and the
  plotting calls do with the data of a chart, an exception of theirs included, is outside
  this model.
\<close>

datatype chart = TimeSeries string | BarHorizontal string | Pie string

text \<open>\<^verbatim>\<open>df.empty\<close>: no record, or no column.\<close>

definition frame_empty :: "frame \<Rightarrow> bool" where
  "frame_empty f \<longleftrightarrow> rows f = [] \<or> columns f = []"

definition visualizations :: "frame \<Rightarrow> chart list" where
  "visualizations view =
     (if \<not> frame_empty view then
        (if ''issue_date'' \<in> set (columns view)
         then [TimeSeries ''Books Issued Each Month''] else []) @
        (if ''book_title'' \<in> set (columns view)
         then [BarHorizontal ''Top 10 Most Borrowed Books''] else []) @
        (if ''genre'' \<in> set (columns view)
         then [Pie ''Book Genre Distribution''] else []) @
        (if ''borrower_type'' \<in> set (columns view)
         then [BarHorizontal ''Books Issued by Borrower Type''] else []) @
        (if ''days_on_loan'' \<in> set (columns view) \<and> ''genre'' \<in> set (columns view)
         then [BarHorizontal ''Average Loan Duration by Genre''] else [])
      else [])"

section \<open>Export\<close>

text \<open>
  Lines 138 to 143. The bytes come from the spreadsheet writer of the library, a
  parameter here, which may read its environment (a workbook carries its creation time).
  \<^verbatim>\<open>@st.cache_data\<close> keeps the result under the content of the argument, so the writer
  runs only for a view that has not been exported yet.
\<close>

type_synonym blob = "nat list"

definition convert_to_excel ::
  "('e \<Rightarrow> frame \<Rightarrow> blob) \<Rightarrow> 'e \<Rightarrow> (frame \<times> blob) list \<Rightarrow> frame
     \<Rightarrow> blob \<times> (frame \<times> blob) list" where
  "convert_to_excel to_excel env cache df =
     (case map_of cache df of
        Some b \<Rightarrow> (b, cache)
      | None \<Rightarrow> (to_excel env df, (df, to_excel env df) # cache))"

text \<open>Lines 145 to 152: the download button exists only for a view that is not empty.\<close>

definition download ::
  "('e \<Rightarrow> frame \<Rightarrow> blob) \<Rightarrow> 'e \<Rightarrow> (frame \<times> blob) list \<Rightarrow> frame
     \<Rightarrow> blob option \<times> (frame \<times> blob) list" where
  "download to_excel env cache view =
     (if \<not> frame_empty view then
        (case convert_to_excel to_excel env cache view of (b, cache') \<Rightarrow> (Some b, cache'))
      else (None, cache))"

section \<open>One run of the script\<close>

record page =
  key_metrics :: "(string \<times> nat) list"
  charts :: "chart list"
  dataframe :: frame
  download_button :: "blob option"

text \<open>Lines 26 to 152 after loading: an exception ends the run and leaves no page.\<close>

definition dashboard ::
  "('e \<Rightarrow> frame \<Rightarrow> blob) \<Rightarrow> 'e \<Rightarrow> (frame \<times> blob) list \<Rightarrow> frame \<Rightarrow> sidebar
     \<Rightarrow> error + page \<times> (frame \<times> blob) list" where
  "dashboard to_excel env cache df w =
     (case filtered_df df w of
        Inl e \<Rightarrow> Inl e
      | Inr view \<Rightarrow>
     (case metrics df view of
        Inl e \<Rightarrow> Inl e
      | Inr m \<Rightarrow>
          (case download to_excel env cache view of
             (button, cache') \<Rightarrow>
               Inr (\<lparr>key_metrics = m, charts = visualizations view, dataframe = view,
                     download_button = button\<rparr>, cache'))))"

section \<open>The filters over a store of table objects\<close>

text \<open>
  The script holds two variables, \<^verbatim>\<open>df\<close> and \<^verbatim>\<open>filtered_df\<close>, that refer to table
  objects. \<^verbatim>\<open>df.copy()\<close> and \<^verbatim>\<open>filtered_df[...]\<close> each build a new object, and the
  assignment binds \<^verbatim>\<open>filtered_df\<close> to it. An object is addressed by its position in
  the store.
\<close>

record store =
  objs :: "frame list"
  df_ref :: nat
  filtered_ref :: nat

definition assign_filtered :: "frame \<Rightarrow> store \<Rightarrow> store" where
  "assign_filtered f s = s\<lparr>objs := objs s @ [f], filtered_ref := length (objs s)\<rparr>"

definition copy_step :: "store \<Rightarrow> store" where
  "copy_step s = assign_filtered (objs s ! df_ref s) s"

definition date_step :: "int \<times> int \<Rightarrow> store \<Rightarrow> error + store" where
  "date_step rng s =
     (if ''issue_date'' \<in> set (columns (objs s ! df_ref s)) then
        (case getitem (objs s ! filtered_ref s) ''issue_date'' of
           Inl e \<Rightarrow> Inl e
         | Inr d \<Rightarrow>
             Inr (assign_filtered
                    (boolean_index (objs s ! filtered_ref s)
                       (series_and (series_ge (map dt_date d) (fst rng))
                                   (series_le (map dt_date d) (snd rng)))) s))
      else Inr s)"

fun loop_steps ::
  "(string \<Rightarrow> cell list) \<Rightarrow> (string \<times> string) list \<Rightarrow> store \<Rightarrow> error + store" where
  "loop_steps sel [] s = Inr s"
| "loop_steps sel ((col, label) # rest) s =
     (if col \<in> set (columns (objs s ! df_ref s)) then
        (case getitem (objs s ! df_ref s) col of
           Inl e \<Rightarrow> Inl e
         | Inr d \<Rightarrow>
             (let options = unique d; chosen = sel col in
              if chosen \<noteq> [] then
                (case getitem (objs s ! filtered_ref s) col of
                   Inl e \<Rightarrow> Inl e
                 | Inr t \<Rightarrow>
                     loop_steps sel rest
                       (assign_filtered (boolean_index (objs s ! filtered_ref s) (isin t chosen)) s))
              else loop_steps sel rest s))
      else loop_steps sel rest s)"

definition run_filters :: "store \<Rightarrow> sidebar \<Rightarrow> error + store" where
  "run_filters s w =
     (case date_step (date_range w) (copy_step s) of
        Inl e \<Rightarrow> Inl e
      | Inr s' \<Rightarrow> loop_steps (selected w) filter_options s')"

section \<open>The contract of the filter engine, record by record\<close>

text \<open>The cell of a record under a label of the table, missing where the label is absent.\<close>

definition cell_of :: "frame \<Rightarrow> cell list \<Rightarrow> string \<Rightarrow> cell" where
  "cell_of f r c = (case get_loc (columns f) c of None \<Rightarrow> NA | Some i \<Rightarrow> cell_at r i)"

text \<open>A cell falls in the interval when it has a calendar day and the day lies between
  the bounds, both included.\<close>

definition in_range :: "int \<times> int \<Rightarrow> cell \<Rightarrow> bool" where
  "in_range rng v = (case dt_date v of None \<Rightarrow> False | Some d \<Rightarrow> fst rng \<le> d \<and> d \<le> snd rng)"

definition categorical_columns :: "string list" where
  "categorical_columns =
     [''genre'', ''borrower_type'', ''student_batch'', ''student_major'', ''borrower_age_group'']"

text \<open>The categorical part of the contract over a list of filter columns: each column
  that is present and has a selection that is not empty holds a selected value.\<close>

definition selection_ok :: "frame \<Rightarrow> (string \<Rightarrow> cell list) \<Rightarrow> string list \<Rightarrow> cell list \<Rightarrow> bool" where
  "selection_ok df sel cs r \<longleftrightarrow>
     (\<forall>c \<in> set cs. c \<in> set (columns df) \<and> sel c \<noteq> [] \<longrightarrow> cell_of df r c \<in> set (sel c))"

text \<open>The contract as the specification words it, for a table with issue dates.\<close>

definition in_view :: "frame \<Rightarrow> sidebar \<Rightarrow> cell list \<Rightarrow> bool" where
  "in_view df w r \<longleftrightarrow>
     in_range (date_range w) (cell_of df r ''issue_date'') \<and>
     selection_ok df (selected w) categorical_columns r"

text \<open>What the code keeps, whether or not the table has issue dates.\<close>

definition kept :: "frame \<Rightarrow> sidebar \<Rightarrow> string list \<Rightarrow> cell list \<Rightarrow> bool" where
  "kept df w cs r \<longleftrightarrow>
     (''issue_date'' \<in> set (columns df) \<longrightarrow>
        in_range (date_range w) (cell_of df r ''issue_date'')) \<and>
     selection_ok df (selected w) cs r"

text \<open>The view with the filter of one column switched off: the loop passes over it.\<close>

definition filtered_df_without :: "string \<Rightarrow> frame \<Rightarrow> sidebar \<Rightarrow> error + frame" where
  "filtered_df_without c df w =
     (case date_filter df (date_range w) df of
        Inl e \<Rightarrow> Inl e
      | Inr view \<Rightarrow>
          filter_loop df (selected w) (filter (\<lambda>(k, l). k \<noteq> c) filter_options) view)"

text \<open>The test of the fourth metric as the specification words it: the status is a text
  that has \<^verbatim>\<open>Late\<close> or \<^verbatim>\<open>Overdue\<close> as a contiguous part, letter case kept.\<close>

definition late_status :: "cell \<Rightarrow> bool" where
  "late_status v = (case v of Text t \<Rightarrow> sublist ''Late'' t \<or> sublist ''Overdue'' t | _ \<Rightarrow> False)"

section \<open>A small lending table\<close>

text \<open>Four loans; the last one has no issue date and no borrower.\<close>

definition example_table :: frame where
  "example_table =
     \<lparr>columns = [''issue_date'', ''genre'', ''borrower_type'', ''borrower_id'',
                 ''return_date'', ''overdue_status''],
      rows =
        [[Timestamp 10 0, Text ''Fiction'', Text ''Student'', Text ''B1'', NA, Text ''Late''],
         [Timestamp 20 3600, Text ''Drama'', Text ''Staff'', Text ''B2'', Timestamp 25 0,
          Text ''On time''],
         [Timestamp 30 0, Text ''Fiction'', Text ''Student'', Text ''B1'', Timestamp 50 0,
          Text ''Overdue by 3''],
         [NA, Text ''Fiction'', NA, NA, NA, NA]]\<rparr>"

text \<open>The slider at its full width, and fiction alone chosen among the genres.\<close>

definition example_sidebar :: sidebar where
  "example_sidebar =
     \<lparr>date_range = (10, 30), selected = (\<lambda>c. [])(''genre'' := [Text ''Fiction''])\<rparr>"

text \<open>The slider drawn to days on which nothing was issued: the view is empty.\<close>

definition gap_sidebar :: sidebar where
  "gap_sidebar =
     \<lparr>date_range = (12, 18), selected = (\<lambda>c. [])(''genre'' := [Text ''Fiction''])\<rparr>"

text \<open>A table without the column \<^verbatim>\<open>borrower_id\<close>.\<close>

definition anonymous_table :: frame where
  "anonymous_table =
     \<lparr>columns = [''issue_date'', ''genre'', ''return_date'', ''overdue_status''],
      rows = [[Timestamp 10 0, Text ''Fiction'', NA, Text ''Late'']]\<rparr>"

text \<open>Two loans on different days, again without the column \<^verbatim>\<open>borrower_id\<close>.\<close>

definition two_day_table :: frame where
  "two_day_table =
     \<lparr>columns = [''issue_date'', ''genre'', ''return_date'', ''overdue_status''],
      rows = [[Timestamp 10 0, Text ''Fiction'', NA, Text ''Late''],
              [Timestamp 30 0, Text ''Fiction'', Timestamp 40 0, Text ''On time'']]\<rparr>"

text \<open>Two loans on different days, with every column of the metrics, the status left
  blank in both.\<close>

definition blank_status_table :: frame where
  "blank_status_table =
     \<lparr>columns = [''issue_date'', ''genre'', ''borrower_id'', ''return_date'',
                 ''overdue_status''],
      rows = [[Timestamp 10 0, Text ''Fiction'', Text ''B1'', NA, NA],
              [Timestamp 30 0, Text ''Fiction'', Text ''B2'', Timestamp 40 0, NA]]\<rparr>"

text \<open>A store in which \<^verbatim>\<open>df\<close> is bound to the small table.\<close>

definition example_store :: store where
  "example_store = \<lparr>objs = [example_table], df_ref = 0, filtered_ref = 0\<rparr>"

section \<open>Lemmas on the pandas operations\<close>

lemma get_loc_None: "get_loc ks c = None \<longleftrightarrow> c \<notin> set ks"
  by (induction ks) auto

lemma get_loc_Some: "c \<in> set ks \<Longrightarrow> \<exists>i. get_loc ks c = Some i"
  using get_loc_None [of ks c] by (cases "get_loc ks c") auto

lemma getitem_present:
  "c \<in> set (columns f) \<Longrightarrow> getitem f c = Inr (map (\<lambda>r. cell_of f r c) (rows f))"
  using get_loc_Some [of c "columns f"] by (auto simp: getitem_def cell_of_def)

lemma getitem_absent: "c \<notin> set (columns f) \<Longrightarrow> getitem f c = Inl (KeyError c)"
  by (simp add: getitem_def get_loc_None [THEN iffD2])

lemma mask_select: "map fst (filter snd (zip xs (map p xs))) = filter p xs"
  by (induction xs) auto

lemma boolean_index_map: "boolean_index f (map p (rows f)) = f\<lparr>rows := filter p (rows f)\<rparr>"
  by (simp add: boolean_index_def mask_select)

lemma isin_map: "isin (map g xs) vals = map (\<lambda>r. g r \<in> set vals) xs"
  by (simp add: isin_def)

lemma cell_of_cong: "columns f = columns g \<Longrightarrow> cell_of f r c = cell_of g r c"
  by (simp add: cell_of_def)

section \<open>The view, record by record\<close>

lemma date_mask:
  "series_and (series_ge (map h xs) lo) (series_le (map h xs) hi)
     = map (\<lambda>r. case h r of None \<Rightarrow> False | Some d \<Rightarrow> lo \<le> d \<and> d \<le> hi) xs"
  by (induction xs) (auto simp: series_and_def series_ge_def series_le_def
      split: option.splits)

lemma kept_fun:
  "kept df w cs = (\<lambda>r. (''issue_date'' \<in> set (columns df) \<longrightarrow>
        in_range (date_range w) (cell_of df r ''issue_date'')) \<and>
     selection_ok df (selected w) cs r)"
  by (rule ext) (simp add: kept_def)

lemma date_filter_rows:
  "columns view = columns df \<Longrightarrow>
   date_filter df rng view =
     Inr (view\<lparr>rows := filter (\<lambda>r. ''issue_date'' \<in> set (columns df) \<longrightarrow>
                                   in_range rng (cell_of df r ''issue_date'')) (rows view)\<rparr>)"
proof (cases "''issue_date'' \<in> set (columns df)")
  case True
  assume eq: "columns view = columns df"
  with True have "getitem view ''issue_date'' = Inr (map (\<lambda>r. cell_of view r ''issue_date'') (rows view))"
    by (simp add: getitem_present)
  moreover have "\<And>r. cell_of view r ''issue_date'' = cell_of df r ''issue_date''"
    using eq by (rule cell_of_cong)
  ultimately show ?thesis
    using True by (simp add: date_filter_def date_mask boolean_index_map in_range_def)
next
  case False
  then show ?thesis by (simp add: date_filter_def)
qed

lemma selection_ok_Nil: "selection_ok df sel [] r"
  by (simp add: selection_ok_def)

lemma selection_ok_Cons:
  "selection_ok df sel (c # cs) r \<longleftrightarrow>
     (c \<in> set (columns df) \<and> sel c \<noteq> [] \<longrightarrow> cell_of df r c \<in> set (sel c)) \<and>
     selection_ok df sel cs r"
  by (auto simp: selection_ok_def)

lemma filter_loop_rows:
  "columns view = columns df \<Longrightarrow>
   filter_loop df sel opts view =
     Inr (view\<lparr>rows := filter (selection_ok df sel (map fst opts)) (rows view)\<rparr>)"
proof (induction opts arbitrary: view)
  case Nil
  then show ?case by (simp add: selection_ok_Nil)
next
  case (Cons opt opts)
  obtain col label where o: "opt = (col, label)" by (cases opt)
  show ?case
  proof (cases "col \<in> set (columns df) \<and> sel col \<noteq> []")
    case True
    let ?view' = "view\<lparr>rows := filter (\<lambda>r. cell_of df r col \<in> set (sel col)) (rows view)\<rparr>"
    have g: "getitem view col = Inr (map (\<lambda>r. cell_of df r col) (rows view))"
      using True Cons.prems by (simp add: getitem_present cell_of_cong [of view df])
    have b: "boolean_index view (isin (map (\<lambda>r. cell_of df r col) (rows view)) (sel col)) = ?view'"
      by (simp add: isin_map boolean_index_map)
    have "filter_loop df sel (opt # opts) view = filter_loop df sel opts ?view'"
      using True by (simp add: o getitem_present g b)
    also have "\<dots> = Inr (?view'\<lparr>rows := filter (selection_ok df sel (map fst opts)) (rows ?view')\<rparr>)"
      using Cons.prems by (intro Cons.IH) simp
    finally show ?thesis
      using True by (simp add: o selection_ok_Cons conj_commute)
  next
    case False
    then have "filter_loop df sel (opt # opts) view = filter_loop df sel opts view"
      by (auto simp: o getitem_present)
    then show ?thesis
      using False Cons.IH [OF Cons.prems] by (auto simp: o selection_ok_Cons)
  qed
qed

lemma map_fst_filter_options: "map fst filter_options = categorical_columns"
  by (simp add: filter_options_def categorical_columns_def)

lemma filtered_df_rows:
  "filtered_df df w = Inr (df\<lparr>rows := filter (kept df w categorical_columns) (rows df)\<rparr>)"
  by (simp add: filtered_df_def date_filter_rows filter_loop_rows map_fst_filter_options
      kept_fun)

lemma date_filter_rows_self:
  "date_filter df rng df =
     Inr (df\<lparr>rows := filter (\<lambda>r. ''issue_date'' \<in> set (columns df) \<longrightarrow>
                                 in_range rng (cell_of df r ''issue_date'')) (rows df)\<rparr>)"
  by (rule date_filter_rows) simp

lemma selection_ok_skip:
  "sel c = [] \<Longrightarrow>
   selection_ok df sel (map fst (filter (\<lambda>(k, l). k \<noteq> c) opts)) r = selection_ok df sel (map fst opts) r"
  by (auto simp: selection_ok_def)

lemma filtered_df_without_rows:
  assumes "selected w c = []"
  shows "filtered_df_without c df w =
           Inr (df\<lparr>rows := filter (kept df w categorical_columns) (rows df)\<rparr>)"
  using assms
  by (simp add: filtered_df_without_def date_filter_rows_self filter_loop_rows
      selection_ok_skip map_fst_filter_options kept_fun)

section \<open>Claims on the filter engine\<close>

text \<open>
  C1. For a loaded table with issue dates, every date interval and every family of
  selections, the view holds exactly the records of the table whose issue date falls in the
  interval and whose value, in each categorical filter column that is present and has a
  selection that is not empty, is among the selected ones. The records keep their order
  and their number of occurrences, and the view has the columns of the table.
\<close>

theorem filtered_df_contract:
  assumes "''issue_date'' \<in> set (columns df)"
  shows "\<exists>view. filtered_df df w = Inr view \<and>
           columns view = columns df \<and>
           rows view = filter (in_view df w) (rows df) \<and>
           (\<forall>r. r \<in> set (rows view) \<longleftrightarrow> r \<in> set (rows df) \<and> in_view df w r)"
proof -
  have "kept df w categorical_columns = in_view df w"
    using assms by (intro ext) (simp add: kept_def in_view_def)
  then show ?thesis by (simp add: filtered_df_rows)
qed

theorem filtered_df_contract_witness:
  "''issue_date'' \<in> set (columns example_table) \<and>
   (\<exists>view. filtered_df example_table example_sidebar = Inr view \<and>
      columns view = columns example_table \<and>
      rows view =
        [[Timestamp 10 0, Text ''Fiction'', Text ''Student'', Text ''B1'', NA, Text ''Late''],
         [Timestamp 30 0, Text ''Fiction'', Text ''Student'', Text ''B1'', Timestamp 50 0,
          Text ''Overdue by 3'']])"
proof -
  have present: "''issue_date'' \<in> set (columns example_table)"
    by (simp add: example_table_def)
  have "filter (in_view example_table example_sidebar) (rows example_table) =
        [[Timestamp 10 0, Text ''Fiction'', Text ''Student'', Text ''B1'', NA, Text ''Late''],
         [Timestamp 30 0, Text ''Fiction'', Text ''Student'', Text ''B1'', Timestamp 50 0,
          Text ''Overdue by 3'']]"
    by (simp add: example_table_def example_sidebar_def in_view_def in_range_def
        selection_ok_def categorical_columns_def cell_of_def cell_at_def)
  with filtered_df_contract [OF present, of example_sidebar] present show ?thesis
    by metis
qed

text \<open>
  C6. For every date interval and every family of selections, the view has at most as
  many records as the loaded table.
\<close>

theorem filtered_df_row_count:
  "\<exists>view. filtered_df df w = Inr view \<and> length (rows view) \<le> length (rows df)"
  by (simp add: filtered_df_rows)

theorem filtered_df_row_count_witness:
  "\<exists>view. filtered_df example_table example_sidebar = Inr view \<and> length (rows view) \<le> 4"
proof -
  have "length (rows example_table) = 4"
    by (simp add: example_table_def)
  with filtered_df_row_count [of example_table example_sidebar] show ?thesis
    by simp
qed

text \<open>
  C2. When the selection of a column is empty, the view is the one obtained with the
  filter of that column switched off: the records kept are those that meet the date
  interval and the selections of the other columns, and the column itself excludes none.
\<close>

theorem empty_selection_matches_all:
  assumes "selected w c = []"
  shows "filtered_df df w = filtered_df_without c df w \<and>
         (\<exists>view. filtered_df df w = Inr view \<and>
            rows view = filter (kept df w (removeAll c categorical_columns)) (rows df))"
proof -
  have "selection_ok df (selected w) (removeAll c categorical_columns) =
        selection_ok df (selected w) categorical_columns"
    using assms by (intro ext) (auto simp: selection_ok_def)
  then have "kept df w (removeAll c categorical_columns) = kept df w categorical_columns"
    by (simp add: kept_fun)
  then show ?thesis
    by (simp add: filtered_df_rows filtered_df_without_rows [OF assms])
qed

theorem empty_selection_matches_all_witness:
  "selected example_sidebar ''borrower_type'' = [] \<and>
   filtered_df_without ''borrower_type'' example_table example_sidebar =
     Inr (example_table\<lparr>rows :=
       [[Timestamp 10 0, Text ''Fiction'', Text ''Student'', Text ''B1'', NA, Text ''Late''],
        [Timestamp 30 0, Text ''Fiction'', Text ''Student'', Text ''B1'', Timestamp 50 0,
          Text ''Overdue by 3'']]\<rparr>)"
proof -
  have 1: "selected example_sidebar ''borrower_type'' = []"
    by (simp add: example_sidebar_def)
  have "filter (kept example_table example_sidebar categorical_columns) (rows example_table) =
       [[Timestamp 10 0, Text ''Fiction'', Text ''Student'', Text ''B1'', NA, Text ''Late''],
        [Timestamp 30 0, Text ''Fiction'', Text ''Student'', Text ''B1'', Timestamp 50 0,
          Text ''Overdue by 3'']]"
    by (simp add: example_table_def example_sidebar_def kept_def in_range_def
        selection_ok_def categorical_columns_def cell_of_def cell_at_def)
  then have "filtered_df example_table example_sidebar = Inr (example_table\<lparr>rows :=
       [[Timestamp 10 0, Text ''Fiction'', Text ''Student'', Text ''B1'', NA, Text ''Late''],
        [Timestamp 30 0, Text ''Fiction'', Text ''Student'', Text ''B1'', Timestamp 50 0,
          Text ''Overdue by 3'']]\<rparr>)"
    by (simp add: filtered_df_rows)
  with empty_selection_matches_all [OF 1, of example_table, THEN conjunct1, symmetric] 1
  show ?thesis
    by simp
qed

text \<open>
  C5. The date filter includes both bounds. In a table with issue dates, a record whose
  issue date has a calendar day equal to the lower or to the upper bound of the interval
  is kept by the date filter, and it is in the view when it also meets the selections.
\<close>

theorem date_filter_inclusive:
  assumes "''issue_date'' \<in> set (columns df)"
    and "r \<in> set (rows df)"
    and "dt_date (cell_of df r ''issue_date'') = Some d"
    and "fst (date_range w) \<le> snd (date_range w)"
    and "d = fst (date_range w) \<or> d = snd (date_range w)"
  shows "(\<exists>view. date_filter df (date_range w) df = Inr view \<and> r \<in> set (rows view)) \<and>
         (selection_ok df (selected w) categorical_columns r \<longrightarrow>
            (\<exists>view. filtered_df df w = Inr view \<and> r \<in> set (rows view)))"
proof -
  have "in_range (date_range w) (cell_of df r ''issue_date'')"
    using assms(3-5) by (auto simp: in_range_def)
  then show ?thesis
    using assms(2) by (simp add: date_filter_rows_self filtered_df_rows kept_def)
qed

theorem date_filter_inclusive_witness:
  "(\<exists>view. date_filter example_table (10, 30) example_table = Inr view \<and>
      [Timestamp 10 0, Text ''Fiction'', Text ''Student'', Text ''B1'', NA, Text ''Late'']
        \<in> set (rows view)) \<and>
   (\<exists>view. filtered_df example_table example_sidebar = Inr view \<and>
      [Timestamp 10 0, Text ''Fiction'', Text ''Student'', Text ''B1'', NA, Text ''Late'']
        \<in> set (rows view))"
proof -
  let ?r = "[Timestamp 10 0, Text ''Fiction'', Text ''Student'', Text ''B1'', NA, Text ''Late'']"
  have 1: "''issue_date'' \<in> set (columns example_table)"
    and 2: "?r \<in> set (rows example_table)"
    by (simp_all add: example_table_def)
  have 3: "dt_date (cell_of example_table ?r ''issue_date'') = Some 10"
    by (simp add: example_table_def cell_of_def cell_at_def)
  have 4: "fst (date_range example_sidebar) \<le> snd (date_range example_sidebar)"
    and 5: "10 = fst (date_range example_sidebar) \<or> 10 = snd (date_range example_sidebar)"
    and 6: "date_range example_sidebar = (10, 30)"
    by (simp_all add: example_sidebar_def)
  have 7: "selection_ok example_table (selected example_sidebar) categorical_columns ?r"
    by (simp add: selection_ok_def categorical_columns_def example_sidebar_def
        example_table_def cell_of_def cell_at_def)
  from date_filter_inclusive [OF 1 2 3 4 5] 6 7 show ?thesis
    by simp
qed

text \<open>
  C10. In a table with issue dates, no record of the view has a missing issue date,
  whatever the interval: a record whose issue date is missing is never in the view.
\<close>

theorem null_issue_date_excluded:
  assumes "''issue_date'' \<in> set (columns df)"
  shows "\<exists>view. filtered_df df w = Inr view \<and>
           (\<forall>r \<in> set (rows view). cell_of df r ''issue_date'' \<noteq> NA) \<and>
           (\<forall>r. cell_of df r ''issue_date'' = NA \<longrightarrow> r \<notin> set (rows view))"
  using assms by (auto simp: filtered_df_rows kept_def in_range_def)

theorem null_issue_date_excluded_witness:
  "cell_of example_table [NA, Text ''Fiction'', NA, NA, NA, NA] ''issue_date'' = NA \<and>
   [NA, Text ''Fiction'', NA, NA, NA, NA] \<in> set (rows example_table) \<and>
   (\<exists>view. filtered_df example_table example_sidebar = Inr view \<and>
      [NA, Text ''Fiction'', NA, NA, NA, NA] \<notin> set (rows view))"
proof -
  have 1: "''issue_date'' \<in> set (columns example_table)"
    and 2: "[NA, Text ''Fiction'', NA, NA, NA, NA] \<in> set (rows example_table)"
    by (simp_all add: example_table_def)
  have 3: "cell_of example_table [NA, Text ''Fiction'', NA, NA, NA, NA] ''issue_date'' = NA"
    by (simp add: example_table_def cell_of_def cell_at_def)
  from null_issue_date_excluded [OF 1, of example_sidebar] 2 3 show ?thesis
    by blast
qed

section \<open>Claims on the metrics and the page\<close>

lemma set_unique: "set (unique xs) = set xs"
  by (induction xs) auto

lemma distinct_unique: "distinct (unique xs)"
  by (induction xs) (auto simp: set_unique)

lemma nunique_card: "nunique s = card (set s - {NA})"
proof -
  have "nunique s = card (set (unique (filter (\<lambda>v. v \<noteq> NA) s)))"
    by (simp add: nunique_def distinct_card [OF distinct_unique])
  also have "set (unique (filter (\<lambda>v. v \<noteq> NA) s)) = set s - {NA}"
    by (auto simp: set_unique)
  finally show ?thesis .
qed

lemma re_search_sublist: "re_search alts t \<longleftrightarrow> (\<exists>a \<in> set alts. sublist a t)"
  by (induction t) (auto simp: list_ex_iff sublist_Cons_right)

lemma series_sum_map: "series_sum (map p xs) = length (filter p xs)"
  by (induction xs) (auto simp: series_sum_def)

lemma late_status_search:
  "(case v of Text t \<Rightarrow> re_search [''Late'', ''Overdue''] t | _ \<Rightarrow> False) = late_status v"
  by (cases v) (simp_all add: late_status_def re_search_sublist)

lemma object_dtype_text:
  "c \<in> set (columns df) \<Longrightarrow>
   object_dtype df c \<longleftrightarrow> rows df = [] \<or> (\<exists>r \<in> set (rows df). is_text (cell_of df r c))"
  by (auto simp: object_dtype_def getitem_present list_ex_iff)

text \<open>
  Where the status column was loaded as a text column, the metrics are as the
  specification has them: the number of records; the number of distinct borrower ids, a
  missing id not being a value; the number of records whose return date is missing; the
  number of records whose overdue status is a text with \<^verbatim>\<open>Late\<close> or \<^verbatim>\<open>Overdue\<close> as a
  contiguous part, letter case kept.
\<close>

lemma metrics_on_text_status:
  assumes "''borrower_id'' \<in> set (columns view)"
    and "''return_date'' \<in> set (columns view)"
    and "''overdue_status'' \<in> set (columns view)"
    and "object_dtype df ''overdue_status''"
  shows "metrics df view = Inr
     [(''Total Books Issued'', length (rows view)),
      (''Unique Borrowers'',
         card ((\<lambda>r. cell_of view r ''borrower_id'') ` set (rows view) - {NA})),
      (''Books Not Returned'',
         length (filter (\<lambda>r. cell_of view r ''return_date'' = NA) (rows view))),
      (''Late Returns'',
         length (filter (\<lambda>r. late_status (cell_of view r ''overdue_status'')) (rows view)))]"
  using assms
  by (simp add: metrics_def str_accessor_def getitem_present nunique_card isna_def
      str_contains_def series_sum_map comp_def late_status_search)

lemma metrics_example_table:
  "metrics example_table example_table =
     Inr [(''Total Books Issued'', 4), (''Unique Borrowers'', 2),
          (''Books Not Returned'', 2), (''Late Returns'', 2)]"
proof -
  have 1: "''borrower_id'' \<in> set (columns example_table)"
    and 2: "''return_date'' \<in> set (columns example_table)"
    and 3: "''overdue_status'' \<in> set (columns example_table)"
    by (simp_all add: example_table_def)
  have 4: "object_dtype example_table ''overdue_status''"
    by (simp add: object_dtype_def getitem_def example_table_def cell_at_def)
  have a: "length (rows example_table) = 4"
    by (simp add: example_table_def)
  have "(\<lambda>r. cell_of example_table r ''borrower_id'') ` set (rows example_table) - {NA}
          = {Text ''B1'', Text ''B2''}"
    by (auto simp: example_table_def cell_of_def cell_at_def)
  then have b: "card ((\<lambda>r. cell_of example_table r ''borrower_id'') ` set (rows example_table)
                   - {NA}) = 2"
    by simp
  have c: "length (filter (\<lambda>r. cell_of example_table r ''return_date'' = NA) (rows example_table)) = 2"
    by (simp add: example_table_def cell_of_def cell_at_def)
  have d: "length (filter (\<lambda>r. late_status (cell_of example_table r ''overdue_status''))
             (rows example_table)) = 2"
    by (simp add: example_table_def cell_of_def cell_at_def late_status_def
        sublist_Cons_right)
  from metrics_on_text_status [OF 1 2 3 4] a b c d show ?thesis
    by simp
qed

text \<open>
  Where the view has no record, the three columns of the metrics are present and the
  status column was loaded as a text column, the run ends with a page: the four metrics
  are zero, no chart is drawn, there is no download button, and the export cache is as
  before.
\<close>

lemma empty_view_page:
  assumes "''borrower_id'' \<in> set (columns df)"
    and "''return_date'' \<in> set (columns df)"
    and "''overdue_status'' \<in> set (columns df)"
    and "object_dtype df ''overdue_status''"
    and "filtered_df df w = Inr view"
    and "rows view = []"
  shows "dashboard to_excel env cache df w =
           Inr (\<lparr>key_metrics =
                   [(''Total Books Issued'', 0), (''Unique Borrowers'', 0),
                    (''Books Not Returned'', 0), (''Late Returns'', 0)],
                 charts = [], dataframe = view, download_button = None\<rparr>, cache)"
proof -
  have "columns view = columns df"
    using assms(5) by (auto simp: filtered_df_rows)
  then have "metrics df view = Inr [(''Total Books Issued'', 0), (''Unique Borrowers'', 0),
                    (''Books Not Returned'', 0), (''Late Returns'', 0)]"
    using assms(1-4,6)
    by (simp add: metrics_def str_accessor_def getitem_present nunique_def isna_def
        str_contains_def series_sum_def)
  then show ?thesis
    using assms(5,6)
    by (simp add: dashboard_def visualizations_def download_def frame_empty_def)
qed

lemma example_table_gap:
  "filtered_df example_table gap_sidebar = Inr (example_table\<lparr>rows := []\<rparr>)"
proof -
  have "filter (kept example_table gap_sidebar categorical_columns) (rows example_table) = []"
    by (simp add: example_table_def gap_sidebar_def kept_def in_range_def
        selection_ok_def categorical_columns_def cell_of_def cell_at_def)
  then show ?thesis
    by (simp add: filtered_df_rows)
qed

lemma empty_view_page_example:
  "dashboard (\<lambda>e f. [e]) (7::nat) [] example_table gap_sidebar =
           Inr (\<lparr>key_metrics =
                   [(''Total Books Issued'', 0), (''Unique Borrowers'', 0),
                    (''Books Not Returned'', 0), (''Late Returns'', 0)],
                 charts = [], dataframe = example_table\<lparr>rows := []\<rparr>,
                 download_button = None\<rparr>, [])"
proof -
  have 1: "''borrower_id'' \<in> set (columns example_table)"
    and 2: "''return_date'' \<in> set (columns example_table)"
    and 3: "''overdue_status'' \<in> set (columns example_table)"
    by (simp_all add: example_table_def)
  have 4: "object_dtype example_table ''overdue_status''"
    by (simp add: object_dtype_def getitem_def example_table_def cell_at_def)
  have 5: "rows (example_table\<lparr>rows := []\<rparr>) = []"
    by simp
  show ?thesis
    by (rule empty_view_page [OF 1 2 3 4 example_table_gap 5])
qed

lemma dashboard_missing_borrower_id:
  assumes "''borrower_id'' \<notin> set (columns df)"
  shows "dashboard to_excel env cache df w = Inl (KeyError ''borrower_id'')"
  using assms
  by (simp add: dashboard_def filtered_df_rows metrics_def getitem_absent)

lemma dashboard_numeric_status:
  assumes "''borrower_id'' \<in> set (columns df)"
    and "''return_date'' \<in> set (columns df)"
    and "''overdue_status'' \<in> set (columns df)"
    and "\<not> object_dtype df ''overdue_status''"
  shows "dashboard to_excel env cache df w =
           Inl (AttributeError ''Can only use .str accessor with string values'')"
  using assms
  by (simp add: dashboard_def filtered_df_rows metrics_def str_accessor_def getitem_present)

lemma blank_status_table_facts:
  "''borrower_id'' \<in> set (columns blank_status_table)"
  "''return_date'' \<in> set (columns blank_status_table)"
  "''overdue_status'' \<in> set (columns blank_status_table)"
  "getitem blank_status_table ''overdue_status'' = Inr [NA, NA]"
  "\<not> object_dtype blank_status_table ''overdue_status''"
  by (simp_all add: blank_status_table_def object_dtype_def getitem_def cell_at_def)

lemma two_day_table_gap:
  "filtered_df two_day_table gap_sidebar = Inr (two_day_table\<lparr>rows := []\<rparr>)"
proof -
  have "filter (kept two_day_table gap_sidebar categorical_columns) (rows two_day_table) = []"
    by (simp add: two_day_table_def gap_sidebar_def kept_def in_range_def
        selection_ok_def categorical_columns_def cell_of_def cell_at_def)
  then show ?thesis
    by (simp add: filtered_df_rows)
qed

lemma blank_status_table_gap:
  "filtered_df blank_status_table gap_sidebar = Inr (blank_status_table\<lparr>rows := []\<rparr>)"
proof -
  have "filter (kept blank_status_table gap_sidebar categorical_columns)
          (rows blank_status_table) = []"
    by (simp add: blank_status_table_def gap_sidebar_def kept_def in_range_def
        selection_ok_def categorical_columns_def cell_of_def cell_at_def)
  then show ?thesis
    by (simp add: filtered_df_rows)
qed

text \<open>
  C4. The claim fails on the code where the status is blank in every record of the loaded
  table: the three columns of the metrics are present and every status is missing, yet
  under every state of the sidebar the run ends in \<^verbatim>\<open>AttributeError\<close> at the fourth
  metric, where the claim has the missing statuses left out of the count without an
  error.
\<close>

theorem metrics_blank_status_raises:
  "''borrower_id'' \<in> set (columns blank_status_table) \<and>
   ''return_date'' \<in> set (columns blank_status_table) \<and>
   getitem blank_status_table ''overdue_status'' = Inr [NA, NA] \<and>
   dashboard to_excel env cache blank_status_table w =
     Inl (AttributeError ''Can only use .str accessor with string values'')"
  using dashboard_numeric_status [of blank_status_table to_excel env cache w]
  by (simp add: blank_status_table_facts)

text \<open>
  C7. The claim fails on the code for an empty view of a table that lacks a column of the
  metrics, and for one whose status column is blank: with the slider drawn to days without
  a loan the view has no record, and the run ends in an exception at the metrics instead
  of a page of zeros.
\<close>

theorem empty_view_metrics_raise:
  "filtered_df two_day_table gap_sidebar = Inr (two_day_table\<lparr>rows := []\<rparr>) \<and>
   dashboard to_excel env cache two_day_table gap_sidebar = Inl (KeyError ''borrower_id'') \<and>
   filtered_df blank_status_table gap_sidebar = Inr (blank_status_table\<lparr>rows := []\<rparr>) \<and>
   dashboard to_excel env cache blank_status_table gap_sidebar =
     Inl (AttributeError ''Can only use .str accessor with string values'')"
proof -
  have "''borrower_id'' \<notin> set (columns two_day_table)"
    by (simp add: two_day_table_def)
  then have "dashboard to_excel env cache two_day_table gap_sidebar =
               Inl (KeyError ''borrower_id'')"
    by (rule dashboard_missing_borrower_id)
  moreover have "dashboard to_excel env cache blank_status_table gap_sidebar =
                   Inl (AttributeError ''Can only use .str accessor with string values'')"
    by (rule dashboard_numeric_status) (simp_all add: blank_status_table_facts)
  ultimately show ?thesis
    by (simp add: two_day_table_gap blank_status_table_gap)
qed

text \<open>
  C3. The filters and the charts test for their columns, the metrics do not: on a table
  without the column \<^verbatim>\<open>borrower_id\<close> the run ends in \<^verbatim>\<open>KeyError\<close> at the metrics, and
  there is no page. This holds for the table of one loan, and for the table of two loans
  on different days under every state of the sidebar.
\<close>

theorem metrics_missing_column_raises:
  "dashboard to_excel env cache anonymous_table example_sidebar = Inl (KeyError ''borrower_id'') \<and>
   dashboard to_excel env cache two_day_table w = Inl (KeyError ''borrower_id'')"
proof -
  have "''borrower_id'' \<notin> set (columns anonymous_table)"
    and "''borrower_id'' \<notin> set (columns two_day_table)"
    by (simp_all add: anonymous_table_def two_day_table_def)
  then show ?thesis
    by (simp add: dashboard_missing_borrower_id)
qed

section \<open>Claims on the export\<close>

lemma convert_to_excel_hit:
  "map_of cache v = Some b \<Longrightarrow> convert_to_excel to_excel env cache v = (b, cache)"
  by (simp add: convert_to_excel_def)

lemma convert_to_excel_stores:
  "map_of (snd (convert_to_excel to_excel env cache v)) v =
     Some (fst (convert_to_excel to_excel env cache v))"
  by (simp add: convert_to_excel_def split: option.splits)

lemma convert_to_excel_keeps:
  "map_of cache v = Some b \<Longrightarrow>
   map_of (snd (convert_to_excel to_excel env cache u)) v = Some b"
  by (auto simp: convert_to_excel_def split: option.splits)

text \<open>
  C8. Once a view has been exported, exporting a view of the same content again gives
  the same bytes and leaves the cache as it is, whatever the environment of the writer has
  become, and also after another view has been exported in between.
\<close>

theorem convert_to_excel_idempotent:
  assumes "columns v' = columns v" and "rows v' = rows v"
  shows "fst (convert_to_excel to_excel env' (snd (convert_to_excel to_excel env cache v)) v') =
           fst (convert_to_excel to_excel env cache v) \<and>
         snd (convert_to_excel to_excel env' (snd (convert_to_excel to_excel env cache v)) v') =
           snd (convert_to_excel to_excel env cache v) \<and>
         fst (convert_to_excel to_excel env''
                (snd (convert_to_excel to_excel env'
                        (snd (convert_to_excel to_excel env cache v)) u)) v') =
           fst (convert_to_excel to_excel env cache v)"
proof -
  have eq: "v' = v"
    using assms by simp
  let ?c = "snd (convert_to_excel to_excel env cache v)"
  let ?b = "fst (convert_to_excel to_excel env cache v)"
  have 1: "map_of ?c v = Some ?b"
    by (rule convert_to_excel_stores)
  have 2: "map_of (snd (convert_to_excel to_excel env' ?c u)) v = Some ?b"
    using 1 by (rule convert_to_excel_keeps)
  show ?thesis
    by (simp add: eq convert_to_excel_hit [OF 1] convert_to_excel_hit [OF 2])
qed

theorem convert_to_excel_idempotent_witness:
  "fst (convert_to_excel (\<lambda>e f. [e]) (2::nat)
          (snd (convert_to_excel (\<lambda>e f. [e]) 1 [] example_table))
          (example_table\<lparr>rows := rows example_table\<rparr>)) = [1]"
proof -
  have 1: "columns (example_table\<lparr>rows := rows example_table\<rparr>) = columns example_table"
    and 2: "rows (example_table\<lparr>rows := rows example_table\<rparr>) = rows example_table"
    by simp_all
  have "fst (convert_to_excel (\<lambda>e f. [e]) (1::nat) [] example_table) = [1]"
    by (simp add: convert_to_excel_def)
  with convert_to_excel_idempotent [OF 1 2, of "\<lambda>e f. [e]" 2 1 "[]"] show ?thesis
    by simp
qed

section \<open>Claims on the loaded table as an object\<close>

lemma assign_filtered_simps:
  "objs (assign_filtered f s) = objs s @ [f]"
  "df_ref (assign_filtered f s) = df_ref s"
  "filtered_ref (assign_filtered f s) = length (objs s)"
  by (simp_all add: assign_filtered_def)

lemma prefix_nth: "prefix xs ys \<Longrightarrow> i < length xs \<Longrightarrow> ys ! i = xs ! i"
  by (auto simp: prefix_def nth_append)

lemma loop_steps_frame:
  "df_ref s < length (objs s) \<Longrightarrow> filtered_ref s < length (objs s) \<Longrightarrow>
   loop_steps sel opts s = Inr s' \<Longrightarrow>
   df_ref s' = df_ref s \<and> prefix (objs s) (objs s') \<and> filtered_ref s \<le> filtered_ref s' \<and>
   filtered_ref s' < length (objs s')"
proof (induction opts arbitrary: s)
  case Nil
  then show ?case by simp
next
  case (Cons opt opts)
  obtain col label where opt: "opt = (col, label)" by (cases opt)
  let ?D = "objs s ! df_ref s" and ?V = "objs s ! filtered_ref s"
  show ?case
  proof (cases "col \<in> set (columns ?D) \<and> sel col \<noteq> []")
    case False
    then have "loop_steps sel (opt # opts) s = loop_steps sel opts s"
      by (auto simp: opt getitem_present)
    with Cons show ?thesis by simp
  next
    case True
    then obtain t where t: "getitem ?V col = Inr t"
      using Cons.prems(3) by (cases "getitem ?V col") (simp_all add: opt getitem_present)
    let ?s1 = "assign_filtered (boolean_index ?V (isin t (sel col))) s"
    have s1: "df_ref ?s1 < length (objs ?s1)" and s2: "filtered_ref ?s1 < length (objs ?s1)"
      using Cons.prems(1) by (simp_all add: assign_filtered_simps)
    have "loop_steps sel opts ?s1 = Inr s'"
      using True t Cons.prems(3) by (simp add: opt getitem_present)
    from Cons.IH [OF s1 s2 this]
    have "df_ref s' = df_ref s"
      and p: "prefix (objs s @ [boolean_index ?V (isin t (sel col))]) (objs s')"
      and le: "length (objs s) \<le> filtered_ref s'" and "filtered_ref s' < length (objs s')"
      by (simp_all add: assign_filtered_simps)
    moreover have "prefix (objs s) (objs s')"
      using p by (rule append_prefixD)
    moreover have "filtered_ref s \<le> filtered_ref s'"
      using le Cons.prems(2) by simp
    ultimately show ?thesis
      by simp
  qed
qed

lemma loop_steps_result:
  "df_ref s < length (objs s) \<Longrightarrow>
   map_sum id (\<lambda>s'. objs s' ! filtered_ref s') (loop_steps sel opts s) =
     filter_loop (objs s ! df_ref s) sel opts (objs s ! filtered_ref s)"
proof (induction opts arbitrary: s)
  case Nil
  then show ?case by simp
next
  case (Cons opt opts)
  obtain col label where opt: "opt = (col, label)" by (cases opt)
  let ?D = "objs s ! df_ref s" and ?V = "objs s ! filtered_ref s"
  show ?case
  proof (cases "col \<in> set (columns ?D) \<and> sel col \<noteq> []")
    case False
    then have "loop_steps sel (opt # opts) s = loop_steps sel opts s"
      and "filter_loop ?D sel (opt # opts) ?V = filter_loop ?D sel opts ?V"
      by (auto simp: opt getitem_present)
    with Cons show ?thesis by simp
  next
    case True
    show ?thesis
    proof (cases "getitem ?V col")
      case (Inl e)
      with True show ?thesis by (simp add: opt getitem_present)
    next
      case (Inr t)
      let ?s1 = "assign_filtered (boolean_index ?V (isin t (sel col))) s"
      have s1: "df_ref ?s1 < length (objs ?s1)"
        using Cons.prems by (simp add: assign_filtered_simps)
      have D1: "objs ?s1 ! df_ref ?s1 = ?D"
        using Cons.prems by (simp add: assign_filtered_simps nth_append)
      have V1: "objs ?s1 ! filtered_ref ?s1 = boolean_index ?V (isin t (sel col))"
        by (simp add: assign_filtered_simps)
      have "loop_steps sel (opt # opts) s = loop_steps sel opts ?s1"
        and "filter_loop ?D sel (opt # opts) ?V =
                filter_loop ?D sel opts (boolean_index ?V (isin t (sel col)))"
        using True Inr by (simp_all add: opt getitem_present)
      with Cons.IH [OF s1] show ?thesis
        by (simp add: D1 V1)
    qed
  qed
qed

lemma date_step_frame:
  "df_ref s < length (objs s) \<Longrightarrow> filtered_ref s < length (objs s) \<Longrightarrow>
   date_step rng s = Inr s' \<Longrightarrow>
   df_ref s' = df_ref s \<and> prefix (objs s) (objs s') \<and> filtered_ref s \<le> filtered_ref s' \<and>
   filtered_ref s' < length (objs s')"
  by (auto simp: date_step_def assign_filtered_simps split: if_splits sum.splits)

lemma date_step_result:
  "df_ref s < length (objs s) \<Longrightarrow>
   map_sum id (\<lambda>s'. objs s' ! filtered_ref s') (date_step rng s) =
     date_filter (objs s ! df_ref s) rng (objs s ! filtered_ref s)"
  by (auto simp: date_step_def date_filter_def assign_filtered_simps split: sum.splits)

text \<open>
  C9. Running the filters over the store always ends without an exception, leaves
  \<^verbatim>\<open>df\<close> bound to the same object, and leaves that object, like every object that
  existed before, as it was. The view is another object, and it is the view that the
  filter engine computes from the loaded table.
\<close>

theorem filtering_leaves_table:
  assumes "df_ref s < length (objs s)"
  shows "\<exists>s'. run_filters s w = Inr s' \<and>
           df_ref s' = df_ref s \<and>
           objs s' ! df_ref s' = objs s ! df_ref s \<and>
           prefix (objs s) (objs s') \<and>
           filtered_ref s' \<noteq> df_ref s' \<and>
           filtered_df (objs s ! df_ref s) w = Inr (objs s' ! filtered_ref s')"
proof -
  let ?D = "objs s ! df_ref s"
  let ?s0 = "copy_step s"
  have c: "df_ref ?s0 = df_ref s" "objs ?s0 = objs s @ [?D]" "filtered_ref ?s0 = length (objs s)"
    by (simp_all add: copy_step_def assign_filtered_simps)
  have d0: "df_ref ?s0 < length (objs ?s0)" and f0: "filtered_ref ?s0 < length (objs ?s0)"
    using assms by (simp_all add: c)
  have D0: "objs ?s0 ! df_ref ?s0 = ?D" and V0: "objs ?s0 ! filtered_ref ?s0 = ?D"
    using assms by (simp_all add: c nth_append)
  obtain v1 where v1: "date_filter ?D (date_range w) ?D = Inr v1"
    by (simp add: date_filter_rows)
  with date_step_result [OF d0, of "date_range w"]
  obtain s1 where s1: "date_step (date_range w) ?s0 = Inr s1"
    and r1: "objs s1 ! filtered_ref s1 = v1"
    by (cases "date_step (date_range w) ?s0") (simp_all add: D0 V0)
  from date_step_frame [OF d0 f0 s1]
  have fr1: "df_ref s1 = df_ref s" "prefix (objs ?s0) (objs s1)"
    "filtered_ref ?s0 \<le> filtered_ref s1" "filtered_ref s1 < length (objs s1)"
    by (simp_all add: c)
  have d1: "df_ref s1 < length (objs s1)"
    using fr1(1,4) fr1(3) assms by (simp add: c)
  have D1: "objs s1 ! df_ref s1 = ?D"
    using prefix_nth [OF fr1(2), of "df_ref s"] assms by (simp add: fr1(1) c nth_append)
  obtain v2 where v2: "filter_loop ?D (selected w) filter_options v1 = Inr v2"
    using v1 by (auto simp: date_filter_rows filter_loop_rows)
  with loop_steps_result [OF d1, of "selected w" filter_options]
  obtain s2 where s2: "loop_steps (selected w) filter_options s1 = Inr s2"
    and r2: "objs s2 ! filtered_ref s2 = v2"
    by (cases "loop_steps (selected w) filter_options s1") (simp_all add: D1 r1)
  from loop_steps_frame [OF d1 fr1(4) s2]
  have fr2: "df_ref s2 = df_ref s" "prefix (objs s1) (objs s2)"
    "filtered_ref s1 \<le> filtered_ref s2" "filtered_ref s2 < length (objs s2)"
    by (simp_all add: fr1(1))
  have p: "prefix (objs s) (objs s2)"
    using fr1(2) fr2(2) by (auto simp: c dest: append_prefixD)
  have "run_filters s w = Inr s2"
    by (simp add: run_filters_def s1 s2)
  moreover have "objs s2 ! df_ref s2 = ?D"
    using prefix_nth [OF p assms] by (simp add: fr2(1))
  moreover have "filtered_ref s2 \<noteq> df_ref s2"
    using fr1(3) fr2(3) assms by (simp add: c fr2(1))
  moreover have "filtered_df ?D w = Inr (objs s2 ! filtered_ref s2)"
    by (simp add: filtered_df_def v1 v2 r2)
  ultimately show ?thesis
    using p fr2(1) by simp
qed

theorem filtering_leaves_table_witness:
  "\<exists>s'. run_filters example_store example_sidebar = Inr s' \<and>
      df_ref s' = 0 \<and> objs s' ! 0 = example_table \<and> filtered_ref s' \<noteq> 0"
proof -
  have 1: "df_ref example_store < length (objs example_store)"
    by (simp add: example_store_def)
  have "df_ref example_store = 0" and "objs example_store ! 0 = example_table"
    by (simp_all add: example_store_def)
  with filtering_leaves_table [OF 1, of example_sidebar] show ?thesis
    by auto
qed

end
